theory Spec2Isabelle
  imports Complex_Main "HOL-Library.Word"
begin

unbundle bit_operations_syntax

section \<open>Platform values\<close>

text \<open>
  A JavaScript string is a sequence of UTF-16 code units; \<open>length\<close> counts code units and
  \<open>charCodeAt\<close> reads one of them.  Byte buffers (\<open>Uint8Array\<close>, \<open>ArrayBuffer\<close>) are lists
  of octets.
\<close>

type_synonym u8 = "8 word"
type_synonym u16 = "16 word"
type_synonym u32 = "32 word"
type_synonym jsstring = "u16 list"

text \<open>An ASCII literal as a JavaScript string.\<close>

definition str :: "string \<Rightarrow> jsstring" where
  "str cs = map (\<lambda>c. word_of_nat (of_char c)) cs"

text \<open>
  \<open>Number.prototype.toString\<close> on an integer, which is also what a template literal prints.
  For a safe integer (magnitude below \<open>2^53\<close>) the text is the decimal digits without leading
  zeros, with a minus sign in front of a negative number.  From \<open>2^53\<close> on the platform prints
  the shortest digits that read back as the same double, filled up with zeros, and from
  \<open>10^21\<close> on an exponent; that text is not described here: \<open>number_text_beyond\<close> stands for
  it and nothing is known of it, so no statement below depends on what it is.
\<close>

function decimal :: "nat \<Rightarrow> jsstring" where
  "decimal n = (if n < 10 then [word_of_nat (48 + n)]
                else decimal (n div 10) @ [word_of_nat (48 + n mod 10)])"
  by pat_completeness auto
termination
  by (relation "measure id") auto

declare decimal.simps [simp del]

definition number_text_beyond :: "int \<Rightarrow> jsstring" where
  "number_text_beyond = (SOME text. True)"

definition number_toString :: "int \<Rightarrow> jsstring" where
  "number_toString n =
     (if \<bar>n\<bar> < 2 ^ 53
      then (if n < 0 then 0x2D # decimal (nat (- n)) else decimal (nat n))
      else number_text_beyond n)"

text \<open>
  \<open>String.prototype.padStart\<close>: the string itself when it is long enough or the filler is
  empty, otherwise the filler repeated and cut to the missing length, in front of the string.
\<close>

definition padStart :: "nat \<Rightarrow> jsstring \<Rightarrow> jsstring \<Rightarrow> jsstring" where
  "padStart targetLength padString s =
     (if targetLength \<le> length s \<or> padString = [] then s
      else take (targetLength - length s)
             (concat (replicate (targetLength - length s) padString)) @ s)"

text \<open>The remainder operator \<open>%\<close> on integers: the result has the sign of the dividend.\<close>

definition js_rem :: "int \<Rightarrow> int \<Rightarrow> int" where
  "js_rem a b = sgn a * (\<bar>a\<bar> mod \<bar>b\<bar>)"

text \<open>
  \<open>TextEncoder.encode\<close>: UTF-8 of the string's code points; a surrogate pair is one code
  point, a lone surrogate is replaced by U+FFFD.
\<close>

definition utf8_code_point :: "nat \<Rightarrow> u8 list" where
  "utf8_code_point cp =
     (if cp < 0x80 then [word_of_nat cp]
      else if cp < 0x800 then [word_of_nat (0xC0 + cp div 64), word_of_nat (0x80 + cp mod 64)]
      else if cp < 0x10000 then
        [word_of_nat (0xE0 + cp div 4096), word_of_nat (0x80 + cp div 64 mod 64),
         word_of_nat (0x80 + cp mod 64)]
      else
        [word_of_nat (0xF0 + cp div 262144), word_of_nat (0x80 + cp div 4096 mod 64),
         word_of_nat (0x80 + cp div 64 mod 64), word_of_nat (0x80 + cp mod 64)])"

definition is_high_surrogate :: "u16 \<Rightarrow> bool" where
  "is_high_surrogate u = (0xD800 \<le> u \<and> u \<le> 0xDBFF)"

definition is_low_surrogate :: "u16 \<Rightarrow> bool" where
  "is_low_surrogate u = (0xDC00 \<le> u \<and> u \<le> 0xDFFF)"

definition scalar_value :: "u16 \<Rightarrow> nat" where
  "scalar_value u = (if is_high_surrogate u \<or> is_low_surrogate u then 0xFFFD else unat u)"

fun TextEncoder_encode :: "jsstring \<Rightarrow> u8 list" where
  "TextEncoder_encode [] = []"
| "TextEncoder_encode [u] = utf8_code_point (scalar_value u)"
| "TextEncoder_encode (u # v # rest) =
     (if is_high_surrogate u \<and> is_low_surrogate v
      then utf8_code_point (0x10000 + (unat u - 0xD800) * 0x400 + (unat v - 0xDC00))
           @ TextEncoder_encode rest
      else utf8_code_point (scalar_value u) @ TextEncoder_encode (v # rest))"

section \<open>The platform's HMAC-SHA1\<close>

text \<open>
  \<open>crypto.subtle\<close> belongs to the runtime, not to the repository.  The program asks it for
  \<open>{name: "HMAC", hash: "SHA-1"}\<close>; the functions below are that primitive as its
  standards define it (SHA-1: FIPS 180-4, HMAC: RFC 2104), on octet lists and 32-bit words.
\<close>

definition rotl32 :: "nat \<Rightarrow> u32 \<Rightarrow> u32" where
  "rotl32 n x = push_bit n x OR drop_bit (32 - n) x"

definition be32 :: "u8 list \<Rightarrow> u32" where
  "be32 bs = foldl (\<lambda>acc b. push_bit 8 acc OR ucast b) 0 bs"

definition u32_bytes :: "u32 \<Rightarrow> u8 list" where
  "u32_bytes w = [ucast (drop_bit 24 w), ucast (drop_bit 16 w), ucast (drop_bit 8 w), ucast w]"

definition u64_bytes :: "64 word \<Rightarrow> u8 list" where
  "u64_bytes w =
     [ucast (drop_bit 56 w), ucast (drop_bit 48 w), ucast (drop_bit 40 w), ucast (drop_bit 32 w),
      ucast (drop_bit 24 w), ucast (drop_bit 16 w), ucast (drop_bit 8 w), ucast w]"

definition sha1_pad :: "u8 list \<Rightarrow> u8 list" where
  "sha1_pad m = m @ [0x80] @ replicate ((119 - length m mod 64) mod 64) 0
                  @ u64_bytes (word_of_nat (8 * length m))"

function chunks :: "nat \<Rightarrow> 'a list \<Rightarrow> 'a list list" where
  "chunks k xs = (if k = 0 \<or> xs = [] then [] else take k xs # chunks k (drop k xs))"
  by pat_completeness auto
termination
  by (relation "measure (\<lambda>(k, xs). length xs)") auto

declare chunks.simps [simp del]

text \<open>The message schedule, newest word first: \<open>W\<^sub>t = rotl 1 (W\<^sub>t\<^sub>-\<^sub>3 XOR W\<^sub>t\<^sub>-\<^sub>8 XOR W\<^sub>t\<^sub>-\<^sub>1\<^sub>4 XOR W\<^sub>t\<^sub>-\<^sub>1\<^sub>6)\<close>.\<close>

fun extend_schedule :: "nat \<Rightarrow> u32 list \<Rightarrow> u32 list" where
  "extend_schedule 0 rs = rs"
| "extend_schedule (Suc n) rs = extend_schedule n (rotl32 1 (rs ! 2 XOR rs ! 7 XOR rs ! 13 XOR rs ! 15) # rs)"

definition schedule :: "u8 list \<Rightarrow> u32 list" where
  "schedule block = rev (extend_schedule 64 (rev (map be32 (chunks 4 block))))"

type_synonym sha1_state = "u32 \<times> u32 \<times> u32 \<times> u32 \<times> u32"

definition f_ch :: "u32 \<Rightarrow> u32 \<Rightarrow> u32 \<Rightarrow> u32" where
  "f_ch b c d = (b AND c) OR (NOT b AND d)"

definition f_parity :: "u32 \<Rightarrow> u32 \<Rightarrow> u32 \<Rightarrow> u32" where
  "f_parity b c d = b XOR c XOR d"

definition f_maj :: "u32 \<Rightarrow> u32 \<Rightarrow> u32 \<Rightarrow> u32" where
  "f_maj b c d = (b AND c) OR (b AND d) OR (c AND d)"

fun round1 :: "(u32 \<Rightarrow> u32 \<Rightarrow> u32 \<Rightarrow> u32) \<Rightarrow> u32 \<Rightarrow> u32 \<Rightarrow> sha1_state \<Rightarrow> sha1_state" where
  "round1 f k w (a, b, c, d, e) = (rotl32 5 a + f b c d + e + k + w, a, rotl32 30 b, c, d)"

fun steps :: "(u32 \<Rightarrow> u32 \<Rightarrow> u32 \<Rightarrow> u32) \<Rightarrow> u32 \<Rightarrow> u32 list \<Rightarrow> sha1_state \<Rightarrow> sha1_state" where
  "steps f k [] s = s"
| "steps f k (w # ws) s = steps f k ws (round1 f k w s)"

definition rounds :: "u32 list \<Rightarrow> sha1_state \<Rightarrow> sha1_state" where
  "rounds ws h =
     steps f_parity 0xCA62C1D6 (drop 60 ws)
       (steps f_maj 0x8F1BBCDC (take 20 (drop 40 ws))
         (steps f_parity 0x6ED9EBA1 (take 20 (drop 20 ws))
           (steps f_ch 0x5A827999 (take 20 ws) h)))"

fun add_state :: "sha1_state \<Rightarrow> sha1_state \<Rightarrow> sha1_state" where
  "add_state (a, b, c, d, e) (a', b', c', d', e') = (a + a', b + b', c + c', d + d', e + e')"

definition compress :: "sha1_state \<Rightarrow> u8 list \<Rightarrow> sha1_state" where
  "compress h block = add_state h (rounds (schedule block) h)"

fun digest_bytes :: "sha1_state \<Rightarrow> u8 list" where
  "digest_bytes (a, b, c, d, e) =
     u32_bytes a @ u32_bytes b @ u32_bytes c @ u32_bytes d @ u32_bytes e"

definition sha1 :: "u8 list \<Rightarrow> u8 list" where
  "sha1 m = digest_bytes
     (foldl compress (0x67452301, 0xEFCDAB89, 0x98BADCFE, 0x10325476, 0xC3D2E1F0)
        (chunks 64 (sha1_pad m)))"

definition hmac_key_block :: "u8 list \<Rightarrow> u8 list" where
  "hmac_key_block key =
     (if 64 < length key then sha1 key @ replicate 44 0
      else key @ replicate (64 - length key) 0)"

definition hmac_sha1 :: "u8 list \<Rightarrow> u8 list \<Rightarrow> u8 list" where
  "hmac_sha1 key msg =
     sha1 (map (\<lambda>b. b XOR 0x5C) (hmac_key_block key)
           @ sha1 (map (\<lambda>b. b XOR 0x36) (hmac_key_block key) @ msg))"

text \<open>
  \<open>crypto.subtle.importKey("raw", keyData, {name: "HMAC", hash: "SHA-1"}, false, ["sign"])\<close>
  rejects a key of length zero with a \<open>DataError\<close> (Web Cryptography API, HMAC, import key)
  and otherwise yields a key holding the octets; \<open>crypto.subtle.sign("HMAC", key, msg)\<close> is
  the HMAC of the message.  The exceptions of the program are values of one type: this
  \<open>DataError\<close>, the \<open>SyntaxError\<close> of \<open>JSON.parse\<close>, the \<open>TypeError\<close> of reading a property of
  \<open>null\<close>, and the \<open>QuotaExceededError\<close> of \<open>localStorage.setItem\<close>.
\<close>

datatype error = DataError | SyntaxError | TypeError | QuotaExceededError

definition crypto_subtle_importKey :: "u8 list \<Rightarrow> error + u8 list" where
  "crypto_subtle_importKey keyData = (if keyData = [] then Inl DataError else Inr keyData)"

definition crypto_subtle_sign :: "u8 list \<Rightarrow> u8 list \<Rightarrow> u8 list" where
  "crypto_subtle_sign cryptoKey msg = hmac_sha1 cryptoKey msg"

section \<open>utils/totp.ts\<close>

text \<open>
  \<open>intToBuffer\<close>: \<open>setBigUint64(0, BigInt(num))\<close> stores the number modulo \<open>2^64\<close>, most
  significant byte first.
\<close>

definition intToBuffer :: "nat \<Rightarrow> u8 list" where
  "intToBuffer num = u64_bytes (word_of_nat num)"

text \<open>
  The fallback loop \<open>for (let i = 0; i < combined.length; i++)
  hash = (hash * 31 + combined.charCodeAt(i)) >>> 0\<close>.  The numbers of the program are
  doubles; \<open>>>> 0\<close> reduces modulo \<open>2^32\<close>.
\<close>

function hash_loop :: "jsstring \<Rightarrow> nat \<Rightarrow> nat \<Rightarrow> nat" where
  "hash_loop combined i hash =
     (if i < length combined
      then hash_loop combined (i + 1) ((hash * 31 + unat (combined ! i)) mod 2 ^ 32)
      else hash)"
  by pat_completeness auto
termination
  by (relation "measure (\<lambda>(combined, i, hash). length combined - i)") auto

declare hash_loop.simps [simp del]

definition fallback_otp :: "jsstring \<Rightarrow> nat \<Rightarrow> jsstring" where
  "fallback_otp secret timeStep =
     (let combined = secret @ str '':'' @ number_toString (int timeStep);
          hash = hash_loop combined 0 0;
          otpFallback = js_rem (int hash) 1000000
      in padStart 6 (str ''0'') (number_toString otpFallback))"

text \<open>
  Reading a \<open>Uint8Array\<close> outside its bounds gives \<open>undefined\<close>, which the bitwise
  operators turn into 0; inside, the byte.  Bitwise operators work on 32-bit integers and
  their result is read as a signed one.
\<close>

definition typed_array_get :: "u8 list \<Rightarrow> int \<Rightarrow> u8 option" where
  "typed_array_get a i = (if 0 \<le> i \<and> i < int (length a) then Some (a ! nat i) else None)"

definition ToInt32 :: "u8 option \<Rightarrow> u32" where
  "ToInt32 v = (case v of None \<Rightarrow> 0 | Some b \<Rightarrow> ucast b)"

definition truncation_offset :: "u8 list \<Rightarrow> int" where
  "truncation_offset hmac = sint (ToInt32 (typed_array_get hmac (int (length hmac) - 1)) AND 0x0F)"

definition truncation_binary :: "u8 list \<Rightarrow> int" where
  "truncation_binary hmac =
     (let offset = truncation_offset hmac
      in sint (push_bit 24 (ToInt32 (typed_array_get hmac offset) AND 0x7F)
            OR push_bit 16 (ToInt32 (typed_array_get hmac (offset + 1)) AND 0xFF)
            OR push_bit 8 (ToInt32 (typed_array_get hmac (offset + 2)) AND 0xFF)
            OR (ToInt32 (typed_array_get hmac (offset + 3)) AND 0xFF)))"

definition hmac_otp :: "u8 list \<Rightarrow> jsstring" where
  "hmac_otp hmac =
     (let otp = js_rem (truncation_binary hmac) 1000000
      in padStart 6 (str ''0'') (number_toString otp))"

text \<open>
  \<open>generateTotpForStep\<close>.  The first argument says whether \<open>window.crypto.subtle\<close> exists;
  the result is the value the promise resolves with, or the error it rejects with.
\<close>

definition generateTotpForStep :: "bool \<Rightarrow> jsstring \<Rightarrow> nat \<Rightarrow> error + jsstring" where
  "generateTotpForStep cryptoAvailable secret timeStep =
     (if \<not> cryptoAvailable then Inr (fallback_otp secret timeStep)
      else
        let keyData = TextEncoder_encode secret;
            msg = intToBuffer timeStep
        in case crypto_subtle_importKey keyData of
             Inl e \<Rightarrow> Inl e
           | Inr cryptoKey \<Rightarrow> Inr (hmac_otp (crypto_subtle_sign cryptoKey msg)))"


section \<open>App.tsx: values and platform functions\<close>

text \<open>
  What \<open>JSON.parse\<close> can return.  A number is finite or infinite (a literal too large for
  a double parses to an infinity); an object is the list of its entries, each key once.
\<close>

datatype jsnumber = Finite rat | PlusInfinity | MinusInfinity

datatype json =
    JNull
  | JBool bool
  | JNumber jsnumber
  | JString jsstring
  | JArray "json list"
  | JObject "(jsstring \<times> json) list"

text \<open>The truth value of \<open>if (v)\<close>; \<open>None\<close> is \<open>undefined\<close>.\<close>

fun truthy :: "json \<Rightarrow> bool" where
  "truthy JNull = False"
| "truthy (JBool b) = b"
| "truthy (JNumber n) = (n \<noteq> Finite 0)"
| "truthy (JString s) = (s \<noteq> [])"
| "truthy (JArray vs) = True"
| "truthy (JObject kvs) = True"

definition truthy_opt :: "json option \<Rightarrow> bool" where
  "truthy_opt v = (case v of None \<Rightarrow> False | Some w \<Rightarrow> truthy w)"

text \<open>
  \<open>parsed.readableKey\<close>: a \<open>TypeError\<close> on \<open>null\<close>, the entry of an object, \<open>undefined\<close> on
  anything else (no string, array, number or boolean has a property of that name).
\<close>

definition STORAGE_KEY :: jsstring where
  "STORAGE_KEY = str ''mfa_authenticator_config''"

fun get_readableKey :: "json \<Rightarrow> error + json option" where
  "get_readableKey JNull = Inl TypeError"
| "get_readableKey (JObject kvs) = Inr (map_of kvs (str ''readableKey''))"
| "get_readableKey v = Inr None"

text \<open>
  \<open>config?.readableKey\<close> on the state variable \<open>config\<close>, which is \<open>null\<close> or a value that
  passed the check of the load effect (so never \<open>JNull\<close>).
\<close>

definition config_readableKey :: "json option \<Rightarrow> json option" where
  "config_readableKey cfg =
     (case cfg of None \<Rightarrow> None
      | Some c \<Rightarrow> (case get_readableKey c of Inl e \<Rightarrow> None | Inr v \<Rightarrow> v))"



text \<open>
  \<open>String.prototype.toUpperCase\<close> maps code points one by one.  The table is exact on ASCII
  and on every other code unit whose upper-case form contains an ASCII letter (the sharp s,
  the dotless i, the long s, the ligatures and the letters that decompose); any other code
  unit is kept as it is: its upper-case form has no ASCII letter or digit either.
\<close>

definition toUpperCase_unit :: "u16 \<Rightarrow> jsstring" where
  "toUpperCase_unit u =
     (if 0x61 \<le> u \<and> u \<le> 0x7A then [u - 0x20]
      else if u = 0x00DF then [0x53, 0x53]
      else if u = 0x0131 then [0x49]
      else if u = 0x017F then [0x53]
      else if u = 0x0149 then [0x02BC, 0x4E]
      else if u = 0x01F0 then [0x4A, 0x030C]
      else if u = 0x1E96 then [0x48, 0x0331]
      else if u = 0x1E97 then [0x54, 0x0308]
      else if u = 0x1E98 then [0x57, 0x030A]
      else if u = 0x1E99 then [0x59, 0x030A]
      else if u = 0x1E9A then [0x41, 0x02BE]
      else if u = 0xFB00 then [0x46, 0x46]
      else if u = 0xFB01 then [0x46, 0x49]
      else if u = 0xFB02 then [0x46, 0x4C]
      else if u = 0xFB03 then [0x46, 0x46, 0x49]
      else if u = 0xFB04 then [0x46, 0x46, 0x4C]
      else if u = 0xFB05 then [0x53, 0x54]
      else if u = 0xFB06 then [0x53, 0x54]
      else [u])"

definition toUpperCase :: "jsstring \<Rightarrow> jsstring" where
  "toUpperCase s = concat (map toUpperCase_unit s)"

text \<open>The character class \<open>[A-Z0-9]\<close>.\<close>

definition is_key_char :: "u16 \<Rightarrow> bool" where
  "is_key_char u = ((0x41 \<le> u \<and> u \<le> 0x5A) \<or> (0x30 \<le> u \<and> u \<le> 0x39))"

text \<open>\<open>s.replace(/[^A-Z0-9]/g, "")\<close> and \<open>/^[A-Z0-9]+$/.test(s)\<close>.\<close>

definition remove_invalid :: "jsstring \<Rightarrow> jsstring" where
  "remove_invalid s = filter is_key_char s"

definition key_regex_test :: "jsstring \<Rightarrow> bool" where
  "key_regex_test s = (s \<noteq> [] \<and> list_all is_key_char s)"

text \<open>
  \<open>keySchema\<close>.  A zod string schema runs its checks in the order they were added and
  collects one issue for each that fails.  The two length checks carry the message
  "Key must be exactly 16 characters." (\<open>LengthError\<close>), the pattern check carries
  "Key must contain only A-Z and 0-9." (\<open>CharsetError\<close>); the result is a success when
  there is no issue.
\<close>

datatype ValidationError = LengthError | CharsetError

definition keySchema_safeParse :: "jsstring \<Rightarrow> ValidationError list" where
  "keySchema_safeParse input =
     (if length input < 16 then [LengthError] else [])
     @ (if 16 < length input then [LengthError] else [])
     @ (if \<not> key_regex_test input then [CharsetError] else [])"

section \<open>App.tsx: the component's state\<close>

datatype screen = Loading | Setup | Otp

text \<open>
  The texts of \<open>status\<close>: empty, the message of a validation issue, "Invalid key.",
  "Device paired successfully. Generating OTPs...", "Failed to save device. Please try
  again.".
\<close>

datatype status_text =
    NoStatus
  | IssueMessage ValidationError
  | InvalidKey
  | PairedSuccessfully
  | FailedToSave

text \<open>
  One run of the OTP effect: the key its closures captured, its \<open>isCancelled\<close> flag, and
  whether its interval is registered.
\<close>

record run =
  run_secret :: jsstring
  isCancelled :: bool
  interval_live :: bool

text \<open>
  The state variables of the component, the storage, and what the runtime holds for the
  effect: the dependency values of its last execution, the run whose cleanup is registered,
  all runs so far (a run's number is its position), the \<open>updateOtp\<close> calls that wait at their
  \<open>await\<close> (each with its run and the outcome of its promise), and the number of pending
  250 ms timers.  The storage is a map from keys to texts and is taken to be accessible:
  \<open>getItem\<close> and \<open>removeItem\<close> do not throw (a browser that denies a page its storage throws
  from every use of \<open>localStorage\<close>; that browser is not described here).
\<close>

record app =
  screen :: screen
  config :: "json option"
  keyInput :: jsstring
  status :: status_text
  loading :: bool
  currentOtp :: jsstring
  secondsLeft :: int
  otpHighlight :: bool
  localStorage :: "jsstring \<rightharpoonup> jsstring"
  effectDeps :: "(screen \<times> json option) option"
  activeRun :: "nat option"
  runs :: "run list"
  pendingOtp :: "(nat \<times> (error + jsstring)) list"
  highlightTimers :: nat

definition initial_app :: "(jsstring \<rightharpoonup> jsstring) \<Rightarrow> app" where
  "initial_app store =
     \<lparr> screen = Loading, config = None, keyInput = [], status = NoStatus, loading = False,
       currentOtp = [], secondsLeft = 30, otpHighlight = False, localStorage = store,
       effectDeps = None, activeRun = None, runs = [], pendingOtp = [], highlightTimers = 0 \<rparr>"


section \<open>App.tsx: loading, pairing, reset\<close>

text \<open>
  The load effect.  Every exception inside its \<open>try\<close> ends in the \<open>catch\<close>, which shows the
  setup screen.
\<close>

definition loadEffect :: "(jsstring \<Rightarrow> error + json) \<Rightarrow> app \<Rightarrow> app" where
  "loadEffect JSON_parse s =
     (case localStorage s STORAGE_KEY of
        None \<Rightarrow> s\<lparr>screen := Setup\<rparr>
      | Some raw \<Rightarrow>
          if raw = [] then s\<lparr>screen := Setup\<rparr>
          else
            (case JSON_parse raw of
               Inl e \<Rightarrow> s\<lparr>screen := Setup\<rparr>
             | Inr parsed \<Rightarrow>
                 (case get_readableKey parsed of
                    Inl e \<Rightarrow> s\<lparr>screen := Setup\<rparr>
                  | Inr v \<Rightarrow>
                      if truthy_opt v then s\<lparr>config := Some parsed, screen := Otp\<rparr>
                      else s\<lparr>screen := Setup\<rparr>)))"

text \<open>
  \<open>saveConfig\<close>; the flag says whether \<open>localStorage.setItem\<close> accepts the write (it throws
  when the quota is exceeded).  \<open>setConfig\<close> comes first and stays in effect.
\<close>

definition saveConfig :: "(json \<Rightarrow> jsstring) \<Rightarrow> bool \<Rightarrow> json \<Rightarrow> app \<Rightarrow> error + app" where
  "saveConfig JSON_stringify writable cfg s =
     (if writable
      then Inr (s\<lparr>config := Some cfg,
                  localStorage := (localStorage s)(STORAGE_KEY \<mapsto> JSON_stringify cfg)\<rparr>)
      else Inl QuotaExceededError)"

definition handleKeyInputChange :: "jsstring \<Rightarrow> app \<Rightarrow> app" where
  "handleKeyInputChange val s =
     (let cleaned = remove_invalid (toUpperCase val)
      in if length cleaned \<le> 16 then s\<lparr>keyInput := cleaned, status := NoStatus\<rparr> else s)"

text \<open>
  \<open>handleSaveDevice\<close>; \<open>createdAt\<close> is the text of \<open>new Date().toISOString()\<close>.  The status is
  the message of the first issue.
\<close>

definition handleSaveDevice :: "(json \<Rightarrow> jsstring) \<Rightarrow> jsstring \<Rightarrow> bool \<Rightarrow> app \<Rightarrow> app" where
  "handleSaveDevice JSON_stringify createdAt writable s =
     (case keySchema_safeParse (keyInput s) of
        issue # issues \<Rightarrow> s\<lparr>status := IssueMessage issue\<rparr>
      | [] \<Rightarrow>
          (let cfg = JObject [(str ''readableKey'', JString (keyInput s)),
                              (str ''createdAt'', JString createdAt)]
           in case saveConfig JSON_stringify writable cfg s of
                Inr s' \<Rightarrow>
                  s'\<lparr>keyInput := [], status := PairedSuccessfully, screen := Otp,
                     loading := False\<rparr>
              | Inl e \<Rightarrow>
                  s\<lparr>config := Some cfg, status := FailedToSave, loading := False\<rparr>))"

definition handleResetDevice :: "app \<Rightarrow> app" where
  "handleResetDevice s =
     s\<lparr>localStorage := (localStorage s)(STORAGE_KEY := None), config := None, currentOtp := [],
       secondsLeft := 30, status := NoStatus, keyInput := [], screen := Setup\<rparr>"

section \<open>App.tsx: the OTP effect\<close>












text \<open>
  The interface the specification names: \<open>loadDevice\<close> is the configuration the load effect
  leaves on a fresh component over a given store, \<open>validateKey\<close> the outcome of the schema.
\<close>

definition loadDevice ::
  "(jsstring \<Rightarrow> error + json) \<Rightarrow> (jsstring \<rightharpoonup> jsstring) \<Rightarrow> json option" where
  "loadDevice JSON_parse store = config (loadEffect JSON_parse (initial_app store))"

definition validateKey :: "jsstring \<Rightarrow> ValidationError + jsstring" where
  "validateKey candidate =
     (case keySchema_safeParse candidate of
        [] \<Rightarrow> Inr candidate
      | issue # issues \<Rightarrow> Inl issue)"

section \<open>The specification's own formulations\<close>

text \<open>
  These definitions follow the words of the specification, not the code; the theorems below
  compare them with the functions above.
\<close>

text \<open>A number in exactly \<open>k\<close> decimal digits, zeros in front.\<close>

fun zero_padded :: "nat \<Rightarrow> nat \<Rightarrow> jsstring" where
  "zero_padded 0 n = []"
| "zero_padded (Suc k) n = zero_padded k (n div 10) @ [word_of_nat (48 + n mod 10)]"

definition is_ascii_digit :: "u16 \<Rightarrow> bool" where
  "is_ascii_digit u = (0x30 \<le> u \<and> u \<le> 0x39)"

text \<open>
  The rolling polynomial hash of the fallback: base 31, starting from 0, modulo \<open>2^32\<close>,
  over the character codes.
\<close>

definition polynomial_hash :: "jsstring \<Rightarrow> nat" where
  "polynomial_hash cs =
     (\<Sum>i<length cs. unat (cs ! i) * 31 ^ (length cs - 1 - i)) mod 2 ^ 32"

definition fallback_reference :: "jsstring \<Rightarrow> nat \<Rightarrow> jsstring" where
  "fallback_reference secret timeStep =
     zero_padded 6
       (polynomial_hash (secret @ str '':'' @ number_toString (int timeStep)) mod 1000000)"

text \<open>
  The reference HOTP computation (RFC 4226) in plain arithmetic: the counter as eight bytes,
  most significant first; the HMAC-SHA1 digest; the offset from the low four bits of the last
  digest byte; four bytes from there read as a big-endian number with the top bit of the first
  byte dropped; the result modulo \<open>10^6\<close> in six digits.
\<close>

definition counter_bytes :: "nat \<Rightarrow> u8 list" where
  "counter_bytes c = map (\<lambda>i. word_of_nat (c div 256 ^ (7 - i) mod 256)) [0..<8]"

definition reference_offset :: "u8 list \<Rightarrow> nat" where
  "reference_offset digest = unat (digest ! 19) mod 16"

definition reference_binary :: "u8 list \<Rightarrow> nat" where
  "reference_binary digest =
     (let offset = reference_offset digest
      in (unat (digest ! offset) mod 128) * 2 ^ 24 + unat (digest ! (offset + 1)) * 2 ^ 16
         + unat (digest ! (offset + 2)) * 2 ^ 8 + unat (digest ! (offset + 3)))"

definition hotp_reference :: "u8 list \<Rightarrow> nat \<Rightarrow> jsstring" where
  "hotp_reference key counter =
     zero_padded 6 (reference_binary (hmac_sha1 key (counter_bytes counter)) mod 1000000)"

text \<open>\<open>sanitize\<close>: upper-case, strip what is outside \<open>[A-Z0-9]\<close>, cut to 16 characters.\<close>

definition sanitize :: "jsstring \<Rightarrow> jsstring" where
  "sanitize rawInput = take 16 (filter is_key_char (toUpperCase rawInput))"

text \<open>The invariant of a stored secret: \<open>[A-Z0-9]{16}\<close>.\<close>

definition valid_secret :: "jsstring \<Rightarrow> bool" where
  "valid_secret s = (length s = 16 \<and> list_all is_key_char s)"


section \<open>Concrete inputs\<close>

text \<open>
  A store somebody else wrote: the text \<open>{"readableKey":"abc"}\<close>, and \<open>JSON.parse\<close> at that
  text (its value at any other text plays no role below).
\<close>

definition example_blob :: jsstring where
  "example_blob =
     str (''{'' @ [CHR 0x22] @ ''readableKey'' @ [CHR 0x22] @ '':'' @ [CHR 0x22] @ ''abc''
          @ [CHR 0x22] @ ''}'')"

definition example_parse :: "jsstring \<Rightarrow> error + json" where
  "example_parse raw =
     (if raw = example_blob then Inr (JObject [(str ''readableKey'', JString (str ''abc''))])
      else Inl SyntaxError)"

text \<open>A component on the OTP screen with a paired key.\<close>

definition paired_app :: "jsstring \<Rightarrow> app" where
  "paired_app secret =
     (initial_app Map.empty)
       \<lparr>screen := Otp, config := Some (JObject [(str ''readableKey'', JString secret)])\<rparr>"








section \<open>States the component can reach\<close>




section \<open>Bytes, digits and words\<close>

lemma length_sha1: "length (sha1 m) = 20"
  unfolding sha1_def
  by (cases "foldl compress (0x67452301, 0xEFCDAB89, 0x98BADCFE, 0x10325476, 0xC3D2E1F0)
               (chunks 64 (sha1_pad m))")
     (simp add: u32_bytes_def)

lemma length_hmac_sha1: "length (hmac_sha1 key msg) = 20"
  by (simp add: hmac_sha1_def length_sha1)

lemma or_add: "0 \<le> b \<Longrightarrow> b < 2 ^ k \<Longrightarrow> a * 2 ^ k OR b = a * 2 ^ k + (b::int)"
proof -
  assume b: "0 \<le> b" "b < 2 ^ k"
  then have t: "take_bit k b = b"
    by (simp add: take_bit_int_eq_self)
  have "a * 2 ^ k OR b = concat_bit k b a"
    by (simp add: concat_bit_def t or.commute push_bit_eq_mult)
  also have "\<dots> = take_bit k b + push_bit k a"
    by (rule concat_bit_eq)
  finally show ?thesis
    by (simp add: t push_bit_eq_mult)
qed

lemma and7: "(w :: u32) AND 0x7F = take_bit 7 w"
  by (simp add: take_bit_eq_mask mask_eq_exp_minus_1)
lemma and8: "(w :: u32) AND 0xFF = take_bit 8 w"
  by (simp add: take_bit_eq_mask mask_eq_exp_minus_1)
lemma and4: "(w :: u32) AND 0x0F = take_bit 4 w"
  by (simp add: take_bit_eq_mask mask_eq_exp_minus_1)

lemma uint_u8_bound: "uint (b :: u8) < 256"
  using uint_lt2p [of b] by simp

lemma uint_ucast_u8: "uint (ucast (b :: u8) :: u32) = uint b"
proof -
  have "uint (ucast b :: u32) = take_bit 32 (uint b)"
    by (simp add: unsigned_ucast_eq)
  also have "\<dots> = uint b"
    using uint_u8_bound [of b] by (intro take_bit_int_eq_self) simp_all
  finally show ?thesis .
qed

lemma uint_and_mask:
  "uint ((ucast (b :: u8) :: u32) AND 0x7F) = uint b mod 128"
  "uint ((ucast (b :: u8) :: u32) AND 0xFF) = uint b"
  "uint ((ucast (b :: u8) :: u32) AND 0x0F) = uint b mod 16"
proof -
  have "uint (take_bit n (ucast b :: u32)) = uint b mod 2 ^ n" for n
  proof -
    have "uint (take_bit n (ucast b :: u32)) = take_bit n (uint b)"
      by (simp only: unsigned_take_bit_eq uint_ucast_u8)
    then show ?thesis
      by (simp only: take_bit_eq_mod)
  qed
  from this [of 7] this [of 8] this [of 4] uint_u8_bound [of b]
  show "uint ((ucast b :: u32) AND 0x7F) = uint b mod 128"
    and "uint ((ucast b :: u32) AND 0xFF) = uint b"
    and "uint ((ucast b :: u32) AND 0x0F) = uint b mod 16"
    by (simp_all only: and7 and8 and4) simp_all
qed

lemma uint_push: 
  assumes "0 \<le> k" "k * 2 ^ n < 2 ^ 32" "uint (x :: u32) = k"
  shows "uint (push_bit n x) = k * 2 ^ n"
proof -
  have "uint (push_bit n x) = take_bit 32 (push_bit n (uint x))"
    by (simp only: unsigned_push_bit_eq) simp
  also have "\<dots> = take_bit 32 (k * 2 ^ n)"
    by (simp only: assms push_bit_eq_mult)
  also have "\<dots> = k * 2 ^ n"
    using assms by (intro take_bit_int_eq_self) simp_all
  finally show ?thesis .
qed

lemma binary_uint:
  "uint (push_bit 24 ((ucast (b0 :: u8) :: u32) AND 0x7F) OR push_bit 16 (ucast (b1 :: u8) AND 0xFF)
         OR push_bit 8 (ucast (b2 :: u8) AND 0xFF) OR (ucast (b3 :: u8) AND 0xFF))
   = (uint b0 mod 128) * 2 ^ 24 + uint b1 * 2 ^ 16 + uint b2 * 2 ^ 8 + uint b3"
proof -
  note bd = uint_u8_bound [of b0] uint_u8_bound [of b1] uint_u8_bound [of b2] uint_u8_bound [of b3]
  have p24: "uint (push_bit 24 ((ucast b0 :: u32) AND 0x7F)) = (uint b0 mod 128) * 2 ^ 24"
    by (rule uint_push) (simp_all add: uint_and_mask)
  have p16: "uint (push_bit 16 ((ucast b1 :: u32) AND 0xFF)) = uint b1 * 2 ^ 16"
    using bd by (intro uint_push) (simp_all add: uint_and_mask)
  have p8: "uint (push_bit 8 ((ucast b2 :: u32) AND 0xFF)) = uint b2 * 2 ^ 8"
    using bd by (intro uint_push) (simp_all add: uint_and_mask)
  have s8: "uint b2 * 2 ^ 8 OR uint b3 = uint b2 * 2 ^ 8 + uint b3"
    using bd by (intro or_add) simp_all
  have s16: "uint b1 * 2 ^ 16 OR (uint b2 * 2 ^ 8 + uint b3) = uint b1 * 2 ^ 16 + (uint b2 * 2 ^ 8 + uint b3)"
    using bd by (intro or_add) simp_all
  have s24: "(uint b0 mod 128) * 2 ^ 24 OR (uint b1 * 2 ^ 16 + (uint b2 * 2 ^ 8 + uint b3))
     = (uint b0 mod 128) * 2 ^ 24 + (uint b1 * 2 ^ 16 + (uint b2 * 2 ^ 8 + uint b3))"
    using bd by (intro or_add) simp_all
  show ?thesis
    by (simp only: unsigned_or_eq p24 p16 p8 uint_and_mask s8 s16 s24 add.assoc)
qed


lemma sint_small: "uint (w :: u32) < 2 ^ 31 \<Longrightarrow> sint w = uint w"
proof -
  assume "uint w < 2 ^ 31"
  moreover have "0 \<le> uint w"
    by simp
  ultimately have "signed_take_bit 31 (uint w) = uint w"
    by (intro signed_take_bit_int_eq_self) linarith+
  then show ?thesis
    by (simp add: sint_uint)
qed

lemma zero_padded_0: "zero_padded k 0 = replicate k 0x30"
  by (induction k) (simp_all add: replicate_append_same)

lemma length_zero_padded: "length (zero_padded k n) = k"
  by (induction k arbitrary: n) simp_all

lemma decimal_small: "n < 10 \<Longrightarrow> decimal n = [word_of_nat (48 + n)]"
  by (subst decimal.simps) simp

lemma decimal_large: "\<not> n < 10 \<Longrightarrow> decimal n = decimal (n div 10) @ [word_of_nat (48 + n mod 10)]"
  by (subst decimal.simps) simp

lemma decimal_zero_padded:
  "n < 10 ^ Suc k \<Longrightarrow> length (decimal n) \<le> Suc k \<and>
     replicate (Suc k - length (decimal n)) 0x30 @ decimal n = zero_padded (Suc k) n"
proof (induction k arbitrary: n)
  case 0
  then show ?case by (simp add: decimal_small)
next
  case (Suc k)
  show ?case
  proof (cases "n < 10")
    case True
    then show ?thesis
      by (simp add: decimal_small zero_padded_0 replicate_append_same)
  next
    case False
    from Suc.prems have "n div 10 < 10 ^ Suc k"
      by (simp add: less_mult_imp_div_less)
    from Suc.IH [OF this] False show ?thesis
      by (simp add: decimal_large Suc_diff_le)
  qed
qed

lemma decimal_zero_padded_pos:
  "0 < k \<Longrightarrow> n < 10 ^ k \<Longrightarrow> length (decimal n) \<le> k \<and>
     replicate (k - length (decimal n)) 0x30 @ decimal n = zero_padded k n"
  using decimal_zero_padded [of n "k - 1"] by (cases k) simp_all

lemma padStart_decimal:
  assumes "n < 1000000"
  shows "padStart 6 (str ''0'') (decimal n) = zero_padded 6 n"
proof -
  have "n < 10 ^ 6"
    using assms by simp
  then have len: "length (decimal n) \<le> 6"
    and eq: "replicate (6 - length (decimal n)) 0x30 @ decimal n = zero_padded 6 n"
    using decimal_zero_padded_pos [of 6 n] by simp_all
  have "concat (replicate m [0x30 :: u16]) = replicate m 0x30" for m
    by (induction m) simp_all
  then show ?thesis
    using len eq by (auto simp: padStart_def str_def)
qed

lemma hash_step_exact: "h < 2 ^ 32 \<Longrightarrow> h * 31 + unat (c :: u16) < 2 ^ 53"
proof -
  assume "h < 2 ^ 32"
  moreover have "unat c < 2 ^ 16"
    using unsigned_less [of c] by simp
  ultimately show ?thesis by simp
qed

section \<open>Dynamic truncation\<close>

lemma truncation_offset_20:
  assumes "length hmac = 20"
  shows "truncation_offset hmac = int (reference_offset hmac)"
proof -
  have "typed_array_get hmac (int (length hmac) - 1) = Some (hmac ! 19)"
    using assms by (simp add: typed_array_get_def)
  then have "truncation_offset hmac = sint ((ucast (hmac ! 19) :: u32) AND 0x0F)"
    by (simp add: truncation_offset_def ToInt32_def)
  also have "\<dots> = uint (hmac ! 19) mod 16"
  proof (rule trans [OF sint_small])
    show "uint ((ucast (hmac ! 19) :: u32) AND 0x0F) < 2 ^ 31"
      by (simp only: uint_and_mask) (rule less_trans [OF pos_mod_bound], simp_all)
  qed (simp only: uint_and_mask)
  finally show ?thesis
    by (simp add: reference_offset_def zmod_int)
qed

lemma reference_offset_bound: "reference_offset hmac < 16"
  by (simp add: reference_offset_def)

lemma truncation_binary_20:
  assumes "length hmac = 20"
  shows "truncation_binary hmac = int (reference_binary hmac)"
proof -
  let ?o = "reference_offset hmac"
  have o: "?o < 16"
    by (rule reference_offset_bound)
  have get: "typed_array_get hmac (int ?o + int k) = Some (hmac ! (?o + k))" if "k \<le> 3" for k
    using assms o that by (simp add: typed_array_get_def nat_add_distrib)
  have get0: "typed_array_get hmac (int ?o) = Some (hmac ! ?o)"
    using get [of 0] by simp
  let ?w = "push_bit 24 ((ucast (hmac ! ?o) :: u32) AND 0x7F)
            OR push_bit 16 (ucast (hmac ! (?o + 1)) AND 0xFF)
            OR push_bit 8 (ucast (hmac ! (?o + 2)) AND 0xFF)
            OR (ucast (hmac ! (?o + 3)) AND 0xFF)"
  have "truncation_binary hmac = sint ?w"
    using get [of 1] get [of 2] get [of 3] get0
    by (simp add: truncation_binary_def truncation_offset_20 [OF assms] ToInt32_def Let_def)
  moreover have u: "uint ?w = (uint (hmac ! ?o) mod 128) * 2 ^ 24 + uint (hmac ! (?o + 1)) * 2 ^ 16
      + uint (hmac ! (?o + 2)) * 2 ^ 8 + uint (hmac ! (?o + 3))"
    by (rule binary_uint)
  moreover have "uint ?w < 2 ^ 31"
    unfolding u
    using uint_u8_bound [of "hmac ! (?o + 1)"] uint_u8_bound [of "hmac ! (?o + 2)"]
      uint_u8_bound [of "hmac ! (?o + 3)"] pos_mod_bound [of 128 "uint (hmac ! ?o)"]
    by simp
  ultimately have "truncation_binary hmac = (uint (hmac ! ?o) mod 128) * 2 ^ 24 + uint (hmac ! (?o + 1)) * 2 ^ 16
      + uint (hmac ! (?o + 2)) * 2 ^ 8 + uint (hmac ! (?o + 3))"
    by (simp only: sint_small)
  then show ?thesis
    by (simp add: reference_binary_def Let_def zmod_int)
qed

lemma reference_binary_bound: "reference_binary hmac < 2 ^ 31"
proof -
  have b: "unat (b :: u8) < 256" for b
    using unsigned_less [of b] by simp
  let ?o = "reference_offset hmac"
  have "unat (hmac ! ?o) mod 128 < 128"
    by simp
  with b [of "hmac ! (?o + 1)"] b [of "hmac ! (?o + 2)"] b [of "hmac ! (?o + 3)"]
  show ?thesis
    by (simp add: reference_binary_def Let_def)
qed

section \<open>The primary path and the reference computation\<close>

lemma js_rem_nonneg: "0 \<le> a \<Longrightarrow> 0 < b \<Longrightarrow> js_rem a b = a mod b"
  by (cases "a = 0") (simp_all add: js_rem_def)

lemma number_toString_nat: "n < 2 ^ 53 \<Longrightarrow> number_toString (int n) = decimal n"
proof -
  assume "n < 2 ^ 53"
  then have "int n < 2 ^ 53"
    by (simp only: of_nat_less_numeral_power_cancel_iff)
  then show ?thesis
    by (simp add: number_toString_def)
qed

lemma number_toString_code: "number_toString (int (n mod 1000000)) = decimal (n mod 1000000)"
proof (rule number_toString_nat)
  have "n mod 1000000 < 1000000"
    by simp
  then show "n mod 1000000 < 2 ^ 53"
    by simp
qed

lemma u64_byte:
  assumes "k \<le> 56"
  shows "(ucast (drop_bit k (word_of_nat c :: 64 word)) :: u8) = word_of_nat (c div 2 ^ k mod 256)"
proof -
  have "unat (ucast (drop_bit k (word_of_nat c :: 64 word)) :: u8)
        = take_bit 8 (drop_bit k (take_bit 64 c))"
    by (simp only: unsigned_ucast_eq unsigned_drop_bit_eq unsigned_of_nat) simp
  also have "\<dots> = take_bit 8 (drop_bit k c)"
  proof -
    from assms have "min 8 (64 - k) = 8"
      by simp
    then show ?thesis
      by (simp only: drop_bit_take_bit take_bit_take_bit)
  qed
  also have "\<dots> = c div 2 ^ k mod 256"
    by (simp add: take_bit_eq_mod drop_bit_eq_div)
  also have "\<dots> = unat (word_of_nat (c div 2 ^ k mod 256) :: u8)"
    by (simp add: unsigned_of_nat take_bit_eq_mod)
  finally show ?thesis
    by (simp only: word_unat_eq_iff)
qed

lemma intToBuffer_counter_bytes: "intToBuffer timeStep = counter_bytes timeStep"
proof -
  have "[0..<8] = [0, 1, 2, 3, 4, 5, 6, 7]"
    by (simp add: upt_rec)
  moreover have "(ucast (word_of_nat timeStep :: 64 word) :: u8) = word_of_nat (timeStep mod 256)"
    using u64_byte [of 0 timeStep] by simp
  ultimately show ?thesis
    by (simp add: intToBuffer_def counter_bytes_def u64_bytes_def u64_byte)
qed

lemma utf8_code_point_nonempty: "utf8_code_point cp \<noteq> []"
  by (simp add: utf8_code_point_def)

lemma TextEncoder_encode_empty_iff: "TextEncoder_encode s = [] \<longleftrightarrow> s = []"
  by (induction s rule: TextEncoder_encode.induct) (simp_all add: utf8_code_point_nonempty)

lemma hmac_otp_reference:
  assumes "length hmac = 20"
  shows "hmac_otp hmac = zero_padded 6 (reference_binary hmac mod 1000000)"
proof -
  have "js_rem (truncation_binary hmac) 1000000 = int (reference_binary hmac mod 1000000)"
    by (simp add: truncation_binary_20 [OF assms] js_rem_nonneg zmod_int)
  then show ?thesis
    by (simp add: hmac_otp_def Let_def number_toString_code padStart_decimal)
qed

lemma primary_path:
  "generateTotpForStep True secret timeStep =
     (if secret = [] then Inl DataError
      else Inr (hotp_reference (TextEncoder_encode secret) timeStep))"
  by (simp add: generateTotpForStep_def crypto_subtle_importKey_def crypto_subtle_sign_def
      TextEncoder_encode_empty_iff hotp_reference_def hmac_otp_reference length_hmac_sha1
      intToBuffer_counter_bytes Let_def)

section \<open>The fallback path\<close>

lemma hash_loop_bound: "hash < 2 ^ 32 \<Longrightarrow> hash_loop combined i hash < 2 ^ 32"
proof (induction combined i hash rule: hash_loop.induct)
  case (1 combined i hash)
  show ?case
  proof (cases "i < length combined")
    case True
    have "hash_loop combined (i + 1) ((hash * 31 + unat (combined ! i)) mod 2 ^ 32) < 2 ^ 32"
      using True by (intro "1.IH") simp_all
    with True show ?thesis
      by (subst hash_loop.simps) simp
  next
    case False
    with "1.prems" show ?thesis
      by (subst hash_loop.simps) simp
  qed
qed

lemma mod_step: "((a mod m) * b + s) mod m = (a * b + s) mod (m::nat)"
proof -
  have "((a mod m) * b + s) mod m = (((a mod m) * b) mod m + s) mod m"
    by (simp only: mod_add_left_eq)
  also have "((a mod m) * b) mod m = (a * b) mod m"
    by (rule mod_mult_left_eq)
  finally show ?thesis
    by (simp only: mod_add_left_eq)
qed

lemma hash_loop_sum:
  "i \<le> length combined \<Longrightarrow>
   hash_loop combined i hash mod 2 ^ 32 =
     (hash * 31 ^ (length combined - i)
      + (\<Sum>j = i..<length combined. unat (combined ! j) * 31 ^ (length combined - 1 - j))) mod 2 ^ 32"
proof (induction combined i hash rule: hash_loop.induct)
  case (1 combined i hash)
  let ?n = "length combined"
  let ?S = "\<lambda>i. \<Sum>j = i..<?n. unat (combined ! j) * 31 ^ (?n - 1 - j)"
  show ?case
  proof (cases "i < ?n")
    case True
    let ?h = "(hash * 31 + unat (combined ! i)) mod 2 ^ 32"
    have "hash_loop combined i hash mod 2 ^ 32 = hash_loop combined (i + 1) ?h mod 2 ^ 32"
      using True by (subst hash_loop.simps) simp
    also have "\<dots> = (?h * 31 ^ (?n - (i + 1)) + ?S (i + 1)) mod 2 ^ 32"
      using True by (intro "1.IH") simp_all
    also have "\<dots> = ((hash * 31 + unat (combined ! i)) * 31 ^ (?n - (i + 1)) + ?S (i + 1)) mod 2 ^ 32"
      by (rule mod_step)
    also have "(hash * 31 + unat (combined ! i)) * 31 ^ (?n - (i + 1)) + ?S (i + 1)
               = hash * 31 ^ (?n - i) + ?S i"
    proof -
      have "?n - i = Suc (?n - (i + 1))"
        using True by simp
      moreover have "?S i = unat (combined ! i) * 31 ^ (?n - 1 - i) + ?S (i + 1)"
        using True by (simp add: sum.atLeast_Suc_lessThan)
      ultimately show ?thesis
        by (simp add: algebra_simps)
    qed
    finally show ?thesis .
  next
    case False
    with "1.prems" have "i = ?n"
      by simp
    then show ?thesis
      by (subst hash_loop.simps) simp
  qed
qed

lemma hash_loop_polynomial_hash: "hash_loop combined 0 0 = polynomial_hash combined"
proof -
  have "hash_loop combined 0 0 < 2 ^ 32"
    by (rule hash_loop_bound) simp
  then have "hash_loop combined 0 0 = hash_loop combined 0 0 mod 2 ^ 32"
    by simp
  also have "\<dots> = polynomial_hash combined"
    by (simp only: hash_loop_sum [of 0]) (simp add: polynomial_hash_def lessThan_atLeast0)
  finally show ?thesis .
qed

lemma fallback_path:
  "generateTotpForStep False secret timeStep = Inr (fallback_reference secret timeStep)"
proof -
  let ?h = "polynomial_hash (secret @ str '':'' @ number_toString (int timeStep))"
  have "js_rem (int ?h) 1000000 = int (?h mod 1000000)"
    by (simp add: js_rem_nonneg zmod_int)
  then show ?thesis
    by (simp add: generateTotpForStep_def fallback_otp_def fallback_reference_def Let_def
        hash_loop_polynomial_hash number_toString_code padStart_decimal)
qed

lemma digit_unit: "d < 10 \<Longrightarrow> is_ascii_digit (word_of_nat (48 + d))"
proof -
  assume "d < 10"
  then have "take_bit 16 (48 + d) = 48 + d"
    by (intro take_bit_nat_eq_self) simp
  then have "unat (word_of_nat (48 + d) :: u16) = 48 + d"
    by (simp only: unsigned_of_nat) simp
  with \<open>d < 10\<close> show ?thesis
    by (simp add: is_ascii_digit_def word_le_nat_alt)
qed

lemma zero_padded_digits: "list_all is_ascii_digit (zero_padded k n)"
proof (induction k arbitrary: n)
  case 0
  show ?case by simp
next
  case (Suc k)
  have "is_ascii_digit (word_of_nat (48 + n mod 10))"
    by (rule digit_unit) simp
  with Suc show ?case
    by (simp del: of_nat_add)
qed

section \<open>Rules for evaluating the definitions on concrete inputs\<close>

text \<open>
  The simplifier does not reduce a word numeral modulo \<open>2^32\<close> by itself; the rules below put
  \<open>take_bit 32\<close> (the identity on a 32-bit word) where an addition or a shift may leave the
  range, and unfold the recursions on numerals.
\<close>

lemma decimal_numeral: "decimal (numeral k) = (if numeral k < (10::nat) then [word_of_nat (48 + numeral k)]
                else decimal (numeral k div 10) @ [word_of_nat (48 + numeral k mod 10)])"
  by (subst decimal.simps) simp
lemma decimal_0: "decimal 0 = [48]"
  by (subst decimal.simps) simp
lemma decimal_1: "decimal (Suc 0) = [49]"
  by (subst decimal.simps) simp
lemma norm32: "(x :: u32) = take_bit 32 x"
  by (simp add: take_bit_word_eq_self)
lemma rotl32_eval: "rotl32 n x = take_bit 32 (push_bit n x) OR drop_bit (32 - n) x"
  unfolding rotl32_def by (subst norm32 [of "push_bit n x"]) simp
lemma round1_eval: "round1 f k w (a, b, c, d, e) = (take_bit 32 (rotl32 5 a + f b c d + e + k + w), a, rotl32 30 b, c, d)"
  by (simp add: take_bit_word_eq_self)
lemma add_state_eval: "add_state (a, b, c, d, e) (a', b', c', d', e') =
   (take_bit 32 (a + a'), take_bit 32 (b + b'), take_bit 32 (c + c'), take_bit 32 (d + d'), take_bit 32 (e + e'))"
  by (simp add: take_bit_word_eq_self)
lemma f_ch_eval: "f_ch b c d = (b AND c) OR (take_bit 32 (NOT b) AND d)"
  by (simp add: f_ch_def take_bit_word_eq_self)
lemma extend_schedule_numeral: "extend_schedule (numeral k) rs = extend_schedule (pred_numeral k) (rotl32 1 (rs ! 2 XOR rs ! 7 XOR rs ! 13 XOR rs ! 15) # rs)"
  by (simp add: numeral_eq_Suc)
lemma length_Cons_add: "length (x # xs) = length xs + 1"
  by simp
lemma chunks_Nil: "chunks k [] = []"
  by (simp add: chunks.simps)
lemma chunks_Cons: "chunks (numeral k) (x # xs) = take (numeral k) (x # xs) # chunks (numeral k) (drop (numeral k) (x # xs))"
  by (subst chunks.simps) simp
lemma replicate_num: "replicate (numeral k) x = x # replicate (pred_numeral k) x"
  by (simp add: numeral_eq_Suc)
lemmas sha1_eval = replicate_num sha1_def sha1_pad_def u64_bytes_def u32_bytes_def compress_def rounds_def schedule_def be32_def
       extend_schedule_numeral chunks_Nil chunks_Cons f_ch_eval f_parity_def f_maj_def rotl32_eval round1_eval add_state_eval length_Cons_add
lemmas primary_eval = sha1_eval hmac_sha1_def hmac_key_block_def crypto_subtle_sign_def crypto_subtle_importKey_def
  intToBuffer_def utf8_code_point_def scalar_value_def is_high_surrogate_def is_low_surrogate_def str_def
  generateTotpForStep_def hmac_otp_def truncation_binary_def truncation_offset_def ToInt32_def typed_array_get_def
  Let_def number_toString_def decimal_numeral decimal_0 decimal_1 padStart_def js_rem_def

lemma hash_loop_eval:
  "hash_loop (c # cs) i h =
     (if i < length (c # cs)
      then hash_loop (c # cs) (i + 1) ((h * 31 + unat ((c # cs) ! i)) mod 2 ^ 32) else h)"
  by (subst hash_loop.simps) simp

lemmas fallback_eval = generateTotpForStep_def fallback_otp_def Let_def str_def number_toString_def
  decimal_numeral decimal_0 decimal_1 hash_loop_eval padStart_def js_rem_def

text \<open>One fallback value, computed from the definitions alone.\<close>

lemma fallback_vector:
  "generateTotpForStep False (str ''AAAAAAAAAAAAAAAA'') 1000 = Inr (str ''876249'')"
  by (simp add: fallback_eval)

section \<open>The one-time password engine: claims\<close>

lemma str_nonempty: "str (c # cs) \<noteq> []"
  by (simp add: str_def)

lemma encode_sixteen_A: "TextEncoder_encode (str ''AAAAAAAAAAAAAAAA'') = replicate 16 0x41"
  by (simp add: str_def utf8_code_point_def scalar_value_def is_high_surrogate_def
      is_low_surrogate_def replicate_num)

text \<open>
  C1: for the secret \<open>AAAAAAAAAAAAAAAA\<close> (sixteen bytes \<open>0x41\<close> as HMAC key) and the time steps 0, 1
  and 1000, the primary path of \<open>generateTotpForStep\<close> returns the six-digit string of the reference
  HOTP computation: counter as eight big-endian bytes, HMAC-SHA1, offset from the low nibble of
  the last digest byte, 31 bits read big-endian, modulo \<open>10^6\<close>, zero-padded.
\<close>

theorem C1_primary_path_matches_reference:
  "generateTotpForStep True (str ''AAAAAAAAAAAAAAAA'') 0
     = Inr (hotp_reference (replicate 16 0x41) 0)
   \<and> generateTotpForStep True (str ''AAAAAAAAAAAAAAAA'') 1
     = Inr (hotp_reference (replicate 16 0x41) 1)
   \<and> generateTotpForStep True (str ''AAAAAAAAAAAAAAAA'') 1000
     = Inr (hotp_reference (replicate 16 0x41) 1000)"
  by (simp only: primary_path encode_sixteen_A) (simp add: str_def)

text \<open>
  C4: for every secret and every time step, on the primary path and on the fallback path, the
  string \<open>generateTotpForStep\<close> returns has exactly six characters, all of them ASCII decimal digits,
  and is the decimal form of a number below \<open>10^6\<close> with zeros in front.  A string is returned in
  every case but one: with the empty secret the platform refuses the HMAC key (\<open>DataError\<close>).
\<close>

theorem C4_otp_is_six_digits:
  "case generateTotpForStep available secret timeStep of
     Inr otp \<Rightarrow>
       length otp = 6 \<and> list_all is_ascii_digit otp
       \<and> (\<exists>n. n < 1000000 \<and> otp = replicate (6 - length (decimal n)) 0x30 @ decimal n)
   | Inl e \<Rightarrow> available \<and> secret = []"
proof -
  have six: "length (zero_padded 6 n) = 6 \<and> list_all is_ascii_digit (zero_padded 6 n)
      \<and> (\<exists>m. m < 1000000 \<and>
            zero_padded 6 (n mod 1000000) = replicate (6 - length (decimal m)) 0x30 @ decimal m)" for n
  proof -
    have "n mod 1000000 < 10 ^ 6"
      by simp
    from decimal_zero_padded_pos [OF _ this]
    have "zero_padded 6 (n mod 1000000)
          = replicate (6 - length (decimal (n mod 1000000))) 0x30 @ decimal (n mod 1000000)"
      by simp
    moreover have "n mod 1000000 < 1000000"
      by simp
    ultimately show ?thesis
      using length_zero_padded [of 6 n] zero_padded_digits [of 6 n] by blast
  qed
  show ?thesis
  proof (cases available)
    case True
    then show ?thesis
      using six [of "reference_binary (hmac_sha1 (TextEncoder_encode secret) (counter_bytes timeStep))"]
      by (simp add: primary_path hotp_reference_def length_zero_padded zero_padded_digits)
  next
    case False
    then show ?thesis
      using six [of "polynomial_hash (secret @ str '':'' @ number_toString (int timeStep))"]
      by (simp add: fallback_path fallback_reference_def length_zero_padded zero_padded_digits)
  qed
qed

text \<open>
  C6: on the fallback path the result is the base-31 polynomial hash modulo \<open>2^32\<close>, starting
  from 0, of the character codes of the text \<open>secret:timeStep\<close> the program builds, taken modulo
  \<open>10^6\<close> and zero-padded to six digits, for every secret and time step.  For a time step
  below \<open>2^53\<close> that text ends in the decimal digits of the time step (beyond, the platform
  prints rounded digits, which are not described).  Every intermediate value of the loop is
  below \<open>2^53\<close>, so the program's double arithmetic is exact.
\<close>

theorem C6_fallback_is_polynomial_hash:
  "generateTotpForStep False secret timeStep
     = Inr (zero_padded 6
             (polynomial_hash (secret @ str '':'' @ number_toString (int timeStep)) mod 1000000))
   \<and> (timeStep < 2 ^ 53 \<longrightarrow>
         generateTotpForStep False secret timeStep
           = Inr (zero_padded 6
                   (polynomial_hash (secret @ str '':'' @ decimal timeStep) mod 1000000)))
   \<and> (hash mod 2 ^ 32) * 31 + unat (c :: u16) < 2 ^ 53"
  using hash_step_exact [of "hash mod 2 ^ 32" c]
  by (simp add: fallback_path fallback_reference_def number_toString_nat)

theorem C6_fallback_is_polynomial_hash_witness:
  "(1000 :: nat) < 2 ^ 53
   \<and> generateTotpForStep False (str ''AAAAAAAAAAAAAAAA'') 1000
       = Inr (zero_padded 6
               (polynomial_hash (str ''AAAAAAAAAAAAAAAA'' @ str '':'' @ decimal 1000)
                mod 1000000))
   \<and> zero_padded 6
         (polynomial_hash (str ''AAAAAAAAAAAAAAAA'' @ str '':'' @ decimal 1000) mod 1000000)
       = str ''876249''"
proof -
  have b: "(1000 :: nat) < 2 ^ 53"
    by simp
  from C6_fallback_is_polynomial_hash [of "str ''AAAAAAAAAAAAAAAA''" 1000] b
  have e: "generateTotpForStep False (str ''AAAAAAAAAAAAAAAA'') 1000
       = Inr (zero_padded 6
               (polynomial_hash (str ''AAAAAAAAAAAAAAAA'' @ str '':'' @ decimal 1000)
                mod 1000000))"
    by blast
  with fallback_vector b show ?thesis
    by simp
qed

text \<open>
  C10: in the dynamic truncation of the primary path the offset lies in \<open>[0, 15]\<close>, the four bytes
  read at \<open>offset .. offset + 3\<close> lie inside the 20-byte digest (no read is out of bounds), and
  the assembled value is non-negative and below \<open>2^31\<close>.
\<close>

theorem C10_truncation_in_bounds:
  "let hmac = crypto_subtle_sign cryptoKey msg;
       offset = truncation_offset hmac
   in 0 \<le> offset \<and> offset \<le> 15 \<and> offset + 3 < int (length hmac)
      \<and> typed_array_get hmac offset \<noteq> None
      \<and> typed_array_get hmac (offset + 1) \<noteq> None
      \<and> typed_array_get hmac (offset + 2) \<noteq> None
      \<and> typed_array_get hmac (offset + 3) \<noteq> None
      \<and> 0 \<le> truncation_binary hmac \<and> truncation_binary hmac < 2 ^ 31"
proof -
  let ?hmac = "hmac_sha1 cryptoKey msg"
  have len: "length ?hmac = 20"
    by (rule length_hmac_sha1)
  have "reference_offset ?hmac < 16"
    by (rule reference_offset_bound)
  moreover have "int (reference_binary ?hmac) < 2 ^ 31"
    using reference_binary_bound [of ?hmac] by (simp only: of_nat_less_numeral_power_cancel_iff)
  ultimately show ?thesis
    by (simp add: crypto_subtle_sign_def Let_def truncation_offset_20 [OF len]
        truncation_binary_20 [OF len] typed_array_get_def len)
qed

section \<open>Test vectors\<close>

text \<open>
  The first vector of RFC 4226, Appendix D, and the values of the three inputs of C1, computed here from the definitions alone.
\<close>

lemma rfc4226_vector_0:
  "generateTotpForStep True (str ''12345678901234567890'') 0 = Inr (str ''755224'')"
  by (simp add: primary_eval del: list.size(4) round1.simps add_state.simps)
lemma primary_vector_0:
  "generateTotpForStep True (str ''AAAAAAAAAAAAAAAA'') 0 = Inr (str ''387450'')"
  by (simp add: primary_eval del: list.size(4) round1.simps add_state.simps)
lemma primary_vector_1:
  "generateTotpForStep True (str ''AAAAAAAAAAAAAAAA'') 1 = Inr (str ''243327'')"
  by (simp add: primary_eval del: list.size(4) round1.simps add_state.simps)
lemma primary_vector_1000:
  "generateTotpForStep True (str ''AAAAAAAAAAAAAAAA'') 1000 = Inr (str ''406189'')"
  by (simp add: primary_eval del: list.size(4) round1.simps add_state.simps)

section \<open>Key input and validation: claims\<close>

lemmas key_eval = str_def toUpperCase_def toUpperCase_unit_def remove_invalid_def is_key_char_def
  sanitize_def key_regex_test_def keySchema_safeParse_def validateKey_def valid_secret_def

text \<open>
  C2, as stated, fails: with an empty working buffer, an input of seventeen \<open>A\<close> leaves the
  buffer empty, where the claim promises its first sixteen cleaned characters.  So does an
  input of sixteen characters, fifteen \<open>A\<close> and a sharp s (code \<open>0xDF\<close>), whose upper-case form
  has seventeen.
\<close>

theorem C2_counterexample:
  "keyInput (handleKeyInputChange (str ''AAAAAAAAAAAAAAAAA'') (initial_app Map.empty)) = []
   \<and> sanitize (str ''AAAAAAAAAAAAAAAAA'') = str ''AAAAAAAAAAAAAAAA''
   \<and> length (str ''AAAAAAAAAAAAAAA'' @ [0xDF]) = 16
   \<and> keyInput (handleKeyInputChange (str ''AAAAAAAAAAAAAAA'' @ [0xDF]) (initial_app Map.empty))
       = []
   \<and> sanitize (str ''AAAAAAAAAAAAAAA'' @ [0xDF]) = str ''AAAAAAAAAAAAAAAS''"
  by (simp add: handleKeyInputChange_def initial_app_def key_eval Let_def)

lemma remove_invalid_chars: "list_all is_key_char (remove_invalid s)"
  by (simp add: remove_invalid_def list_all_iff)

text \<open>
  C2, amended: on each input change the raw input is upper-cased and every character outside
  \<open>[A-Z0-9]\<close> is removed; a cleaned form of at most 16 characters becomes the working buffer
  (it is then what \<open>sanitize\<close> gives, and the status is cleared); a longer one is refused and
  the state stays as it was.  So a buffer of at most 16 characters of \<open>[A-Z0-9]\<close> stays one.
\<close>

theorem C2_key_input_change:
  "let cleaned = remove_invalid (toUpperCase val);
       s' = handleKeyInputChange val s
   in list_all is_key_char cleaned
      \<and> (length cleaned \<le> 16 \<longrightarrow>
            s' = s\<lparr>keyInput := cleaned, status := NoStatus\<rparr> \<and> cleaned = sanitize val)
      \<and> (16 < length cleaned \<longrightarrow> s' = s)
      \<and> (length (keyInput s) \<le> 16 \<and> list_all is_key_char (keyInput s) \<longrightarrow>
            length (keyInput s') \<le> 16 \<and> list_all is_key_char (keyInput s'))"
  using remove_invalid_chars [of "toUpperCase val"]
  by (auto simp: handleKeyInputChange_def Let_def sanitize_def remove_invalid_def)

theorem C2_key_input_change_witness:
  "length (remove_invalid (toUpperCase (str ''ab-12 cd''))) \<le> 16
   \<and> keyInput (handleKeyInputChange (str ''ab-12 cd'') (initial_app Map.empty)) = str ''AB12CD''
   \<and> sanitize (str ''ab-12 cd'') = str ''AB12CD''"
proof -
  have c: "remove_invalid (toUpperCase (str ''ab-12 cd'')) = str ''AB12CD''"
    by (simp add: key_eval)
  have l: "length (remove_invalid (toUpperCase (str ''ab-12 cd''))) \<le> 16"
    unfolding c by (simp add: str_def)
  from C2_key_input_change [of "str ''ab-12 cd''" "initial_app Map.empty"] l
  have "handleKeyInputChange (str ''ab-12 cd'') (initial_app Map.empty)
          = (initial_app Map.empty)
              \<lparr>keyInput := remove_invalid (toUpperCase (str ''ab-12 cd'')), status := NoStatus\<rparr>
        \<and> remove_invalid (toUpperCase (str ''ab-12 cd'')) = sanitize (str ''ab-12 cd'')"
    by (simp add: Let_def)
  with l c show ?thesis
    by simp
qed

section \<open>Loading, validation and reset: claims\<close>

lemma example_blob_nonempty: "example_blob \<noteq> []"
  by (simp add: example_blob_def str_def)

text \<open>
  C3, as stated, fails: a stored text whose \<open>readableKey\<close> is \<open>abc\<close> (not sixteen characters of
  \<open>[A-Z0-9]\<close>) is loaded as the configuration; the load effect only asks whether the field is
  truthy.
\<close>

theorem C3_counterexample:
  "loadDevice example_parse [STORAGE_KEY \<mapsto> example_blob]
     = Some (JObject [(str ''readableKey'', JString (str ''abc''))])
   \<and> \<not> valid_secret (str ''abc'')"
  by (simp add: loadDevice_def loadEffect_def initial_app_def example_parse_def
      example_blob_nonempty truthy_opt_def valid_secret_def) (simp add: str_def)

text \<open>
  C3, amended: \<open>loadDevice\<close> is total (every exception of the load effect ends in its \<open>catch\<close>);
  it returns \<open>None\<close>, and the setup screen is shown, when the storage key is absent or holds the
  empty text, when the text is not well-formed JSON, when the parsed value is \<open>null\<close> or has no
  truthy \<open>readableKey\<close>; it returns the parsed value, and the OTP screen is shown, whenever
  \<open>readableKey\<close> is truthy, whatever its length and characters.
\<close>

theorem C3_load_device:
  "(store STORAGE_KEY = None \<longrightarrow> loadDevice JSON_parse store = None)
   \<and> (store STORAGE_KEY = Some [] \<longrightarrow> loadDevice JSON_parse store = None)
   \<and> (store STORAGE_KEY = Some raw \<and> JSON_parse raw = Inl e \<longrightarrow>
         loadDevice JSON_parse store = None)
   \<and> (store STORAGE_KEY = Some raw \<and> JSON_parse raw = Inr parsed
         \<and> \<not> truthy_opt (config_readableKey (Some parsed)) \<longrightarrow>
         loadDevice JSON_parse store = None)
   \<and> (store STORAGE_KEY = Some raw \<and> raw \<noteq> [] \<and> JSON_parse raw = Inr parsed
         \<and> truthy_opt (config_readableKey (Some parsed)) \<longrightarrow>
         loadDevice JSON_parse store = Some parsed)
   \<and> screen (loadEffect JSON_parse (initial_app store))
       = (if loadDevice JSON_parse store = None then Setup else Otp)"
  by (auto simp: loadDevice_def loadEffect_def initial_app_def config_readableKey_def
      truthy_opt_def split: option.splits sum.splits)

theorem C3_load_device_witness:
  "[STORAGE_KEY \<mapsto> example_blob] STORAGE_KEY = Some example_blob \<and> example_blob \<noteq> []
   \<and> example_parse example_blob = Inr (JObject [(str ''readableKey'', JString (str ''abc''))])
   \<and> truthy_opt (config_readableKey (Some (JObject [(str ''readableKey'', JString (str ''abc''))])))
   \<and> loadDevice example_parse [STORAGE_KEY \<mapsto> example_blob]
       = Some (JObject [(str ''readableKey'', JString (str ''abc''))])
   \<and> loadDevice example_parse Map.empty = None"
proof -
  let ?cfg = "JObject [(str ''readableKey'', JString (str ''abc''))]"
  have h: "[STORAGE_KEY \<mapsto> example_blob] STORAGE_KEY = Some example_blob"
    "example_blob \<noteq> []" "example_parse example_blob = Inr ?cfg"
    by (simp_all add: example_blob_nonempty example_parse_def)
  have t: "truthy_opt (config_readableKey (Some ?cfg))"
    by (simp add: truthy_opt_def config_readableKey_def) (simp add: str_def)
  from C3_load_device [of "[STORAGE_KEY \<mapsto> example_blob]" example_parse example_blob DataError ?cfg] h t
  have "loadDevice example_parse [STORAGE_KEY \<mapsto> example_blob] = Some ?cfg"
    by blast
  moreover from C3_load_device [of Map.empty example_parse example_blob DataError ?cfg]
  have "loadDevice example_parse Map.empty = None"
    by simp
  ultimately show ?thesis
    using h t by simp
qed

subsection \<open>Validation\<close>

lemma safeParse_cases:
  "keySchema_safeParse input =
     (if length input < 16 then
        (if key_regex_test input then [LengthError] else [LengthError, CharsetError])
      else if 16 < length input then
        (if key_regex_test input then [LengthError] else [LengthError, CharsetError])
      else if key_regex_test input then [] else [CharsetError])"
  by (simp add: keySchema_safeParse_def)

text \<open>
  C5: validation fails with \<open>LengthError\<close> for every candidate whose length is not 16, with
  \<open>CharsetError\<close> for every candidate of length 16 with a character outside \<open>[A-Z0-9]\<close>, reports the
  length first when both apply, accepts every other candidate, and a failed validation changes
  nothing but the status text (no write to the store, the configuration or the screen).  The
  length is the one the program measures, in UTF-16 code units.
\<close>

theorem C5_key_validation:
  "validateKey candidate =
     (if length candidate \<noteq> 16 then Inl LengthError
      else if \<not> list_all is_key_char candidate then Inl CharsetError
      else Inr candidate)
   \<and> (validateKey (keyInput s) = Inl e \<longrightarrow>
         handleSaveDevice JSON_stringify createdAt writable s = s\<lparr>status := IssueMessage e\<rparr>)"
proof -
  have "length candidate = 16 \<Longrightarrow> key_regex_test candidate = list_all is_key_char candidate"
    by (auto simp: key_regex_test_def)
  then have "validateKey candidate =
     (if length candidate \<noteq> 16 then Inl LengthError
      else if \<not> list_all is_key_char candidate then Inl CharsetError
      else Inr candidate)"
    by (auto simp: validateKey_def safeParse_cases)
  moreover have "validateKey (keyInput s) = Inl e \<longrightarrow>
         handleSaveDevice JSON_stringify createdAt writable s = s\<lparr>status := IssueMessage e\<rparr>"
    by (auto simp: validateKey_def handleSaveDevice_def split: list.splits)
  ultimately show ?thesis
    by simp
qed

theorem C5_key_validation_witness:
  "validateKey (str ''AB12CD34EF56GH78'') = Inr (str ''AB12CD34EF56GH78'')
   \<and> validateKey (str ''AB12CD34EF56GH7'') = Inl LengthError
   \<and> validateKey (str ''AB12CD34EF56GH789'') = Inl LengthError
   \<and> validateKey (str ''ab12cd34ef56gh78'') = Inl CharsetError
   \<and> validateKey (str ''AB12CD34EF56GH7!'') = Inl CharsetError
   \<and> validateKey (str ''ab!'') = Inl LengthError
   \<and> handleSaveDevice (\<lambda>cfg. []) (str ''2024-01-01T00:00:00.000Z'') True
        ((initial_app Map.empty)\<lparr>keyInput := str ''ab!''\<rparr>)
       = (initial_app Map.empty)\<lparr>keyInput := str ''ab!'', status := IssueMessage LengthError\<rparr>"
proof -
  let ?s = "(initial_app Map.empty)\<lparr>keyInput := str ''ab!''\<rparr>"
  note v = C5_key_validation [of _ ?s LengthError "\<lambda>cfg. []" "str ''2024-01-01T00:00:00.000Z''" True]
  have k: "keyInput ?s = str ''ab!''"
    by simp
  have 1: "validateKey (str ''AB12CD34EF56GH78'') = Inr (str ''AB12CD34EF56GH78'')"
    using v [of "str ''AB12CD34EF56GH78''"] by (simp add: str_def is_key_char_def)
  have 2: "validateKey (str ''AB12CD34EF56GH7'') = Inl LengthError"
    using v [of "str ''AB12CD34EF56GH7''"] by (simp add: str_def)
  have 3: "validateKey (str ''AB12CD34EF56GH789'') = Inl LengthError"
    using v [of "str ''AB12CD34EF56GH789''"] by (simp add: str_def)
  have 4: "validateKey (str ''ab12cd34ef56gh78'') = Inl CharsetError"
    using v [of "str ''ab12cd34ef56gh78''"] by (simp add: str_def is_key_char_def)
  have 5: "validateKey (str ''AB12CD34EF56GH7!'') = Inl CharsetError"
    using v [of "str ''AB12CD34EF56GH7!''"] by (simp add: str_def is_key_char_def)
  have 6: "validateKey (str ''ab!'') = Inl LengthError"
    using v [of "str ''ab!''"] by (simp add: str_def)
  have 7: "handleSaveDevice (\<lambda>cfg. []) (str ''2024-01-01T00:00:00.000Z'') True ?s
           = ?s\<lparr>status := IssueMessage LengthError\<rparr>"
    using v [of "str ''ab!''"] 6 by (simp only: k)
  from 1 2 3 4 5 6 7 show ?thesis
    by simp
qed

subsection \<open>Reset\<close>

text \<open>
  C9: \<open>handleResetDevice\<close> is idempotent and raises no error, whether a device is paired or
  not; after it the storage key is absent, no configuration is held, the setup screen is
  shown, and \<open>loadDevice\<close> over the store it leaves returns \<open>None\<close>; on a store without the key it
  leaves the store as it was.
\<close>

theorem C9_reset_idempotent:
  "handleResetDevice (handleResetDevice s) = handleResetDevice s
   \<and> localStorage (handleResetDevice s) STORAGE_KEY = None
   \<and> config (handleResetDevice s) = None
   \<and> screen (handleResetDevice s) = Setup
   \<and> loadDevice JSON_parse (localStorage (handleResetDevice s)) = None
   \<and> localStorage (handleResetDevice (s\<lparr>localStorage := (localStorage s)(STORAGE_KEY := None)\<rparr>))
       = (localStorage s)(STORAGE_KEY := None)"
  by (simp add: handleResetDevice_def loadDevice_def loadEffect_def initial_app_def)

section \<open>The refresh scheduler\<close>














section \<open>The runs of the effect in reachable states\<close>


















section \<open>Cancellation\<close>

























end
